theory Spec2Isabelle
  imports Main "HOL-Library.Word"
begin

unbundle bit_operations_syntax

section \<open>The heap: memlib and the word-level memory\<close>

text \<open>
  mm.c reads and writes the heap only through \<open>GET\<close> and \<open>PUT\<close>, one
  \<open>unsigned long\<close> at a word-aligned byte address, and through one \<open>memcpy\<close> of a
  multiple of eight bytes between word-aligned addresses.  The memory is therefore a
  store from byte addresses to the 64-bit word that starts there (LP64: pointers,
  \<open>size_t\<close> and \<open>unsigned long\<close> are \<open>64 word\<close>, \<open>int\<close> is \<open>32 word\<close>).
  The record holds the global \<open>heap_ptr\<close> of mm.c and the three pointers of memlib.
\<close>

type_synonym addr = "64 word"

record mstate =
  mem :: "addr \<Rightarrow> 64 word"
  heap_ptr :: addr
  mem_start_brk :: addr
  mem_brk :: addr
  mem_max_addr :: addr

text \<open>
  Modelled from the spec: memlib.c is not part of the sources.  The spec's
  \<open>grow(extra_bytes)\<close> extends the heap by exactly \<open>extra_bytes\<close> and returns a pointer
  to the first byte of the new space, or fails; mm.c tests the failure as \<open>(void *) -1\<close>.
  The growth fails when the new break would pass \<open>mem_max_addr\<close>.
\<close>

definition mem_sbrk :: "mstate \<Rightarrow> 64 word \<Rightarrow> addr \<times> mstate" where
  "mem_sbrk s incr =
     (if unat (mem_brk s) + unat incr \<le> unat (mem_max_addr s)
      then (mem_brk s, s\<lparr>mem_brk := mem_brk s + incr\<rparr>)
      else (- 1, s))"

text \<open>
  Modelled from the spec: \<open>heap_bounds\<close> and \<open>heap_size\<close> of memlib.  mm.c reads the
  epilogue header at \<open>mem_heap_hi() - WSIZE + 1\<close>, so the upper bound is the address of
  the last byte of the heap.
\<close>

definition mem_heap_hi :: "mstate \<Rightarrow> addr" where
  "mem_heap_hi s = mem_brk s - 1"

definition mem_heapsize :: "mstate \<Rightarrow> 64 word" where
  "mem_heapsize s = mem_brk s - mem_start_brk s"

section \<open>The macros of mm.c\<close>

definition ALIGNMENT :: "64 word" where "ALIGNMENT = 8"
definition WSIZE :: "64 word" where "WSIZE = 8"
definition DSIZE :: "64 word" where "DSIZE = 2 * WSIZE"
definition CHUNKSIZE :: "64 word" where "CHUNKSIZE = push_bit 12 1 + DSIZE"
definition INITSIZE :: "64 word" where "INITSIZE = push_bit 7 1 + DSIZE"
definition LISTSIZE :: nat where "LISTSIZE = 16"
definition THRESHOLD :: "64 word" where "THRESHOLD = 7"

definition ALIGN :: "64 word \<Rightarrow> 64 word" where
  "ALIGN sz = ((sz + (ALIGNMENT - 1)) div ALIGNMENT) * ALIGNMENT"

definition MAX_size :: "64 word \<Rightarrow> 64 word \<Rightarrow> 64 word" where
  "MAX_size x y = (if x > y then x else y)"

text \<open>\<open>MAX\<close> on two \<open>int\<close> operands compares them as signed numbers.\<close>

definition MAX_int :: "32 word \<Rightarrow> 32 word \<Rightarrow> 32 word" where
  "MAX_int x y = (if y <s x then x else y)"

definition PACK :: "64 word \<Rightarrow> 64 word \<Rightarrow> 64 word" where
  "PACK sz alloc = sz OR alloc"

definition GET :: "mstate \<Rightarrow> addr \<Rightarrow> 64 word" where
  "GET s p = mem s p"

definition PUT :: "mstate \<Rightarrow> addr \<Rightarrow> 64 word \<Rightarrow> mstate" where
  "PUT s p val = s\<lparr>mem := (mem s)(p := val)\<rparr>"

definition GET_SIZE :: "mstate \<Rightarrow> addr \<Rightarrow> 64 word" where
  "GET_SIZE s p = GET s p AND NOT 7"

definition GET_ALLOC :: "mstate \<Rightarrow> addr \<Rightarrow> 64 word" where
  "GET_ALLOC s p = GET s p AND 1"

definition HDRP :: "addr \<Rightarrow> addr" where
  "HDRP bp = bp - WSIZE"

definition FTRP :: "mstate \<Rightarrow> addr \<Rightarrow> addr" where
  "FTRP s bp = bp + GET_SIZE s (HDRP bp) - DSIZE"

definition NEXT_BLKP :: "mstate \<Rightarrow> addr \<Rightarrow> addr" where
  "NEXT_BLKP s bp = bp + GET_SIZE s (bp - WSIZE)"

definition PREV_BLKP :: "mstate \<Rightarrow> addr \<Rightarrow> addr" where
  "PREV_BLKP s bp = bp - GET_SIZE s (bp - DSIZE)"

definition PRED_BLKP :: "mstate \<Rightarrow> addr \<Rightarrow> addr" where
  "PRED_BLKP s bp = GET s bp"

definition SUCC_BLKP :: "mstate \<Rightarrow> addr \<Rightarrow> addr" where
  "SUCC_BLKP s bp = GET s (bp + WSIZE)"

text \<open>
  \<open>freelists(index)\<close>: the address of the list-head slot of class \<open>index\<close>.  The index
  is an \<open>int\<close> in \<open>0 .. LISTSIZE - 1\<close> at every call.
\<close>

definition freelists :: "mstate \<Rightarrow> nat \<Rightarrow> addr" where
  "freelists s index = heap_ptr s - word_of_nat (LISTSIZE + 1 - index) * WSIZE"

section \<open>Helper functions\<close>

definition align_size :: "64 word \<Rightarrow> 64 word" where
  "align_size sz = (if sz \<le> DSIZE then 2 * DSIZE else ALIGN (sz + DSIZE))"

text \<open>
  \<open>index_of\<close>: the loop keeps \<open>curr_size = (4*WSIZE) << index\<close>, so the loop state is
  the index alone; \<open>curr_size\<close> stays below \<open>2^20\<close> and cannot overflow its \<open>int\<close>.
  The comparison \<open>curr_size >= sz\<close> is unsigned, at 64 bits.
\<close>

function index_of_loop :: "nat \<Rightarrow> 64 word \<Rightarrow> nat" where
  "index_of_loop index sz =
     (if (push_bit index (4 * unat WSIZE) :: nat) < push_bit (LISTSIZE - 1) (4 * unat WSIZE)
      then (if word_of_nat (push_bit index (4 * unat WSIZE)) \<ge> sz then index
            else index_of_loop (index + 1) sz)
      else index)"
  by pat_completeness auto
termination
proof (relation "measure (\<lambda>(index, sz). LISTSIZE - 1 - index)")
  show "wf (measure (\<lambda>(index, sz). LISTSIZE - 1 - index))" by simp
next
  fix index :: nat and sz :: "64 word"
  assume "(push_bit index (4 * unat WSIZE) :: nat) < push_bit (LISTSIZE - 1) (4 * unat WSIZE)"
  then have "(2::nat) ^ index < 2 ^ 15"
    by (simp add: LISTSIZE_def WSIZE_def push_bit_eq_mult)
  then have "index < 15"
    by (simp only: power_strict_increasing_iff)
  then show "((index + 1, sz), index, sz) \<in> measure (\<lambda>(index, sz). LISTSIZE - 1 - index)"
    by (simp add: LISTSIZE_def)
qed

declare index_of_loop.simps [simp del]

definition index_of :: "64 word \<Rightarrow> nat" where
  "index_of sz = index_of_loop 0 sz"

text \<open>
  The \<open>while\<close> loop of \<open>add_free\<close> walks a free list through the successor pointers
  stored in the heap; on a cyclic list it does not return (\<open>None\<close>).
\<close>

partial_function (option) add_free_walk ::
  "mstate \<Rightarrow> 64 word \<Rightarrow> addr \<Rightarrow> addr \<Rightarrow> (addr \<times> addr) option" where
  "add_free_walk s sz pred_ptr curr_ptr =
     (if curr_ptr \<noteq> 0 \<and> sz > GET_SIZE s (HDRP curr_ptr)
      then add_free_walk s sz curr_ptr (SUCC_BLKP s curr_ptr)
      else Some (pred_ptr, curr_ptr))"

declare add_free_walk.simps [code]

definition add_free_link :: "mstate \<Rightarrow> addr \<Rightarrow> nat \<Rightarrow> addr \<Rightarrow> addr \<Rightarrow> mstate" where
  "add_free_link s bp index pred_ptr curr_ptr =
     (if GET s (freelists s index) = 0 then
        (let s1 = PUT s bp 0;
             s2 = PUT s1 (bp + WSIZE) 0
         in PUT s2 (freelists s2 index) bp)
      else if curr_ptr = 0 then
        (let s1 = PUT s bp pred_ptr;
             s2 = PUT s1 (bp + WSIZE) 0
         in PUT s2 (pred_ptr + WSIZE) bp)
      else if curr_ptr = GET s (freelists s index) then
        (let s1 = PUT s bp 0;
             s2 = PUT s1 (bp + WSIZE) curr_ptr;
             s3 = PUT s2 curr_ptr bp
         in PUT s3 (freelists s3 index) bp)
      else
        (let s1 = PUT s bp pred_ptr;
             s2 = PUT s1 (bp + WSIZE) curr_ptr;
             s3 = PUT s2 curr_ptr bp
         in PUT s3 (pred_ptr + WSIZE) bp))"

definition add_free :: "mstate \<Rightarrow> addr \<Rightarrow> 64 word \<Rightarrow> mstate option" where
  "add_free s bp sz =
     (let index = index_of sz;
          curr_ptr = (if GET s (freelists s index) = 0 then 0 else GET s (freelists s index))
      in case add_free_walk s sz curr_ptr curr_ptr of
           None \<Rightarrow> None
         | Some (pred_ptr, curr_ptr') \<Rightarrow> Some (add_free_link s bp index pred_ptr curr_ptr'))"

definition pop_free :: "mstate \<Rightarrow> addr \<Rightarrow> mstate" where
  "pop_free s bp =
     (let sz = GET_SIZE s (HDRP bp);
          index = index_of sz
      in if PRED_BLKP s bp = 0 then
           (if SUCC_BLKP s bp = 0 then PUT s (freelists s index) 0
            else (let s1 = PUT s (freelists s index) (SUCC_BLKP s bp)
                  in PUT s1 (SUCC_BLKP s1 bp) 0))
         else
           (if SUCC_BLKP s bp = 0 then PUT s (PRED_BLKP s bp + WSIZE) 0
            else (let s1 = PUT s (PRED_BLKP s bp + WSIZE) (SUCC_BLKP s bp)
                  in PUT s1 (SUCC_BLKP s1 bp) (PRED_BLKP s1 bp))))"

text \<open>
  \<open>coalesce\<close> keeps the merged sz in an \<open>int\<close>: each assignment truncates to 32
  bits (\<open>ucast\<close>), each use in \<open>PACK\<close>, \<open>PUT\<close> and \<open>add_free\<close> sign-extends
  (\<open>scast\<close>).
\<close>

definition coalesce_prev :: "mstate \<Rightarrow> addr \<Rightarrow> 32 word \<Rightarrow> mstate \<times> addr \<times> 32 word" where
  "coalesce_prev s bp sz =
     (let s1 = pop_free s (PREV_BLKP s bp);
          sz' = (ucast (scast sz + GET_SIZE s1 (HDRP (PREV_BLKP s1 bp))) :: 32 word);
          s2 = PUT s1 (FTRP s1 bp) (scast (sz' OR 0));
          s3 = PUT s2 (HDRP (PREV_BLKP s2 bp)) (scast (sz' OR 0))
      in (s3, PREV_BLKP s3 bp, sz'))"

definition coalesce_next :: "mstate \<Rightarrow> addr \<Rightarrow> 32 word \<Rightarrow> mstate \<times> addr \<times> 32 word" where
  "coalesce_next s bp sz =
     (let s1 = pop_free s (NEXT_BLKP s bp);
          sz' = (ucast (scast sz + GET_SIZE s1 (HDRP (NEXT_BLKP s1 bp))) :: 32 word);
          s2 = PUT s1 (FTRP s1 (NEXT_BLKP s1 bp)) (scast (sz' OR 0));
          s3 = PUT s2 (HDRP bp) (scast (sz' OR 0))
      in (s3, bp, sz'))"

definition coalesce :: "mstate \<Rightarrow> addr \<Rightarrow> (addr \<times> mstate) option" where
  "coalesce s bp =
     (let prev_free = (GET_ALLOC s (HDRP (PREV_BLKP s bp)) = 0);
          next_free = (GET_ALLOC s (HDRP (NEXT_BLKP s bp)) = 0);
          sz = (ucast (GET_SIZE s (HDRP bp)) :: 32 word)
      in if \<not> prev_free \<and> \<not> next_free then Some (bp, s)
         else
           (let s1 = pop_free s bp;
                (s2, bp2, size2) = (if prev_free then coalesce_prev s1 bp sz else (s1, bp, sz));
                (s3, bp3, size3) = (if next_free then coalesce_next s2 bp2 size2 else (s2, bp2, size2))
            in case add_free s3 bp3 (scast size3) of
                 None \<Rightarrow> None
               | Some s4 \<Rightarrow> Some (bp3, s4)))"

text \<open>\<open>extend_heap\<close> returns the null pointer, and leaves the heap as it is, when memlib fails.\<close>

definition extend_heap :: "mstate \<Rightarrow> 64 word \<Rightarrow> (addr \<times> mstate) option" where
  "extend_heap s size0 =
     (let sz = ALIGN size0;
          (bp, s0) = mem_sbrk s sz
      in if bp = - 1 then Some (0, s0)
         else
           (let s1 = PUT s0 (HDRP bp) (PACK sz 0);
                s2 = PUT s1 (FTRP s1 bp) (PACK sz 0);
                s3 = PUT s2 (HDRP (NEXT_BLKP s2 bp)) (PACK 0 1)
            in case add_free s3 bp sz of
                 None \<Rightarrow> None
               | Some s4 \<Rightarrow> coalesce s4 bp))"

definition place_fb :: "mstate \<Rightarrow> addr \<Rightarrow> 64 word \<Rightarrow> 64 word \<Rightarrow> 64 word \<Rightarrow> mstate" where
  "place_fb s bp fsize bsize alloc =
     (let nalloc = (if alloc = 0 then 1 else 0);
          s1 = PUT s (HDRP bp) (PACK fsize alloc);
          s2 = PUT s1 (FTRP s1 bp) (PACK fsize alloc);
          s3 = PUT s2 (HDRP (NEXT_BLKP s2 bp)) (PACK bsize nalloc)
      in PUT s3 (FTRP s3 (NEXT_BLKP s3 bp)) (PACK bsize nalloc))"

definition place :: "mstate \<Rightarrow> addr \<Rightarrow> 64 word \<Rightarrow> (addr \<times> mstate) option" where
  "place s bp sz =
     (let total_size = GET_SIZE s (HDRP bp);
          rem_size = total_size - sz;
          s1 = pop_free s bp
      in if rem_size < 4 * WSIZE then
           (let s2 = PUT s1 (HDRP bp) (PACK total_size 1);
                s3 = PUT s2 (FTRP s2 bp) (PACK total_size 1)
            in Some (bp, s3))
         else if rem_size \<ge> THRESHOLD * sz then
           (let s2 = place_fb s1 bp sz rem_size 1
            in case add_free s2 (NEXT_BLKP s2 bp) rem_size of
                 None \<Rightarrow> None
               | Some s3 \<Rightarrow> Some (bp, s3))
         else
           (let s2 = place_fb s1 bp rem_size sz 0
            in case add_free s2 bp rem_size of
                 None \<Rightarrow> None
               | Some s3 \<Rightarrow> Some (NEXT_BLKP s3 bp, s3)))"

section \<open>The allocator\<close>

text \<open>The loop of \<open>mm_init\<close> over the list-head slots, from slot \<open>i\<close> on.\<close>

function init_lists :: "mstate \<Rightarrow> nat \<Rightarrow> mstate" where
  "init_lists s i =
     (if i < LISTSIZE + 1
      then init_lists (PUT s (heap_ptr s + word_of_nat i * WSIZE) 0) (i + 1)
      else s)"
  by pat_completeness auto
termination
  by (relation "measure (\<lambda>(s, i). LISTSIZE + 1 - i)") auto

declare init_lists.simps [simp del]

text \<open>\<open>mm_init\<close> returns \<open>-1\<close> or \<open>0\<close>.\<close>

definition mm_init :: "mstate \<Rightarrow> (int \<times> mstate) option" where
  "mm_init s =
     (let (p, s0) = mem_sbrk s (word_of_nat (LISTSIZE + 4) * WSIZE);
          s1 = s0\<lparr>heap_ptr := p\<rparr>
      in if p = - 1 then Some (- 1, s1)
         else
           (let s2 = PUT s1 (heap_ptr s1) 0;
                s3 = PUT s2 (heap_ptr s2 + word_of_nat (LISTSIZE + 1) * WSIZE) (PACK DSIZE 1);
                s4 = PUT s3 (heap_ptr s3 + word_of_nat (LISTSIZE + 2) * WSIZE) (PACK DSIZE 1);
                s5 = PUT s4 (heap_ptr s4 + word_of_nat (LISTSIZE + 3) * WSIZE) (PACK 0 1);
                s6 = init_lists s5 1;
                s7 = s6\<lparr>heap_ptr := heap_ptr s6 + word_of_nat (LISTSIZE + 2) * WSIZE\<rparr>
            in case extend_heap s7 INITSIZE of
                 None \<Rightarrow> None
               | Some (bp, s8) \<Rightarrow> if bp = 0 then Some (- 1, s8) else Some (0, s8)))"

text \<open>The scan of \<open>mm_malloc\<close> over the list heads, from class \<open>index\<close> upwards.\<close>

function find_fit :: "mstate \<Rightarrow> 64 word \<Rightarrow> nat \<Rightarrow> addr" where
  "find_fit s sz index =
     (if index < LISTSIZE then
        (if GET s (freelists s index) \<noteq> 0
            \<and> GET_SIZE s (HDRP (GET s (freelists s index))) > sz
         then GET s (freelists s index)
         else find_fit s sz (index + 1))
      else 0)"
  by pat_completeness auto
termination
  by (relation "measure (\<lambda>(s, sz, index). LISTSIZE - index)") auto

declare find_fit.simps [simp del]

definition mm_malloc :: "mstate \<Rightarrow> 64 word \<Rightarrow> (addr \<times> mstate) option" where
  "mm_malloc s size0 =
     (if size0 = 0 then Some (0, s)
      else
        (let sz = align_size size0;
             bp = find_fit s sz 0
         in if bp = 0 then
              (case extend_heap s (MAX_size sz CHUNKSIZE) of
                 None \<Rightarrow> None
               | Some (bp', s1) \<Rightarrow> if bp' = 0 then Some (0, s1) else place s1 bp' sz)
            else place s bp sz))"

definition mm_free :: "mstate \<Rightarrow> addr \<Rightarrow> mstate option" where
  "mm_free s bp =
     (let sz = GET_SIZE s (HDRP bp);
          s1 = PUT s (HDRP bp) (PACK sz 0);
          s2 = PUT s1 (FTRP s1 bp) (PACK sz 0)
      in case add_free s2 bp sz of
           None \<Rightarrow> None
         | Some s3 \<Rightarrow> map_option snd (coalesce s3 bp))"

text \<open>
  \<open>memcpy\<close> of \<open>n\<close> bytes, \<open>n\<close> a multiple of the word sz, between word-aligned
  addresses: every word of the destination range takes the word at the same offset of the
  source.
\<close>

definition memcpy :: "mstate \<Rightarrow> addr \<Rightarrow> addr \<Rightarrow> 64 word \<Rightarrow> mstate" where
  "memcpy s dst src n =
     s\<lparr>mem := (\<lambda>a. if a - dst < n \<and> (a - dst) AND 7 = 0 then mem s (src + (a - dst)) else mem s a)\<rparr>"

text \<open>
  \<open>mm_realloc\<close> passes the result of \<open>mm_malloc\<close> to \<open>memcpy\<close> unchecked.  Writing
  through the null pointer is undefined behaviour in C; the model stops there with a fault.
  \<open>rem_size\<close> is an \<open>int\<close>.
\<close>

datatype fault = NullWrite

definition realloc_merge :: "mstate \<Rightarrow> addr \<Rightarrow> 64 word \<Rightarrow> 32 word \<Rightarrow> mstate" where
  "realloc_merge s bp sz rem_size =
     (let s1 = pop_free s (NEXT_BLKP s bp);
          s2 = PUT s1 (HDRP bp) (PACK (sz + scast rem_size) 1)
      in PUT s2 (FTRP s2 bp) (PACK (sz + scast rem_size) 1))"

definition mm_realloc :: "mstate \<Rightarrow> addr \<Rightarrow> 64 word \<Rightarrow> (fault + addr \<times> mstate) option" where
  "mm_realloc s bp size0 =
     (if size0 = 0 then Some (Inr (0, s))
      else
        (let sz = align_size size0
         in if GET_SIZE s (HDRP bp) \<ge> sz then Some (Inr (bp, s))
            else
              (let next_epi = (GET_SIZE s (HDRP (NEXT_BLKP s bp)) = 0);
                   next_free = (GET_ALLOC s (HDRP (NEXT_BLKP s bp)) = 0)
               in if next_free \<or> next_epi then
                    (let rem_size = (ucast (GET_SIZE s (HDRP bp)
                                       + GET_SIZE s (HDRP (NEXT_BLKP s bp)) - sz) :: 32 word)
                     in if rem_size <s 0 then
                          (case extend_heap s (scast (MAX_int (ucast CHUNKSIZE) (- rem_size))) of
                             None \<Rightarrow> None
                           | Some (r, s1) \<Rightarrow>
                               if r = 0 then Some (Inr (0, s1))
                               else Some (Inr (bp, realloc_merge s1 bp sz
                                      (rem_size + MAX_int (ucast CHUNKSIZE) (- rem_size)))))
                        else Some (Inr (bp, realloc_merge s bp sz rem_size)))
                  else
                    (case mm_malloc s sz of
                       None \<Rightarrow> None
                     | Some (new_bp, s1) \<Rightarrow>
                         if new_bp = 0 then Some (Inl NullWrite)
                         else
                           (let s2 = memcpy s1 new_bp bp (GET_SIZE s1 (HDRP bp))
                            in case mm_free s2 bp of
                                 None \<Rightarrow> None
                               | Some s3 \<Rightarrow> Some (Inr (new_bp, s3)))))))"

section \<open>The heap consistency checker\<close>

text \<open>
  \<open>mm_check\<close> is compiled only with \<open>DEBUG\<close>.  Its \<open>int\<close> counters are
  \<open>32 word\<close>s compared as signed numbers; the outer \<open>option\<close> of a walk is
  \<open>None\<close> when the walk does not return (a cyclic free list, a block of size 0), the
  inner one is \<open>None\<close> when the walk ends in \<open>return 0\<close>.  The printing is left out.
\<close>

partial_function (option) check_list_walk ::
  "mstate \<Rightarrow> addr \<Rightarrow> 32 word \<Rightarrow> 64 word \<Rightarrow> (32 word \<times> 64 word) option option" where
  "check_list_walk s bp count fre_size_explicit =
     (let bp' = SUCC_BLKP s bp
      in if bp' \<noteq> 0 then
           (let count' = count + 1;
                fre' = fre_size_explicit + GET_SIZE s (HDRP bp')
            in if GET_ALLOC s (HDRP bp') = 1 then Some None
               else check_list_walk s bp' count' fre')
         else Some (Some (count, fre_size_explicit)))"

declare check_list_walk.simps [code]

function check_lists ::
  "mstate \<Rightarrow> nat \<Rightarrow> 32 word \<Rightarrow> 64 word \<Rightarrow> (32 word \<times> 64 word) option option" where
  "check_lists s i count fre_size_explicit =
     (if i < LISTSIZE then
        (if GET s (freelists s i) \<noteq> 0 then
           (let count' = count + 1;
                bp = GET s (freelists s i);
                fre' = fre_size_explicit + GET_SIZE s (HDRP bp)
            in if GET_ALLOC s (HDRP bp) = 1 then Some None
               else (case check_list_walk s bp count' fre' of
                       None \<Rightarrow> None
                     | Some None \<Rightarrow> Some None
                     | Some (Some (count'', fre'')) \<Rightarrow> check_lists s (i + 1) count'' fre''))
         else check_lists s (i + 1) count fre_size_explicit)
      else Some (Some (count, fre_size_explicit)))"
  by pat_completeness auto
termination
  by (relation "measure (\<lambda>(s, i, count, fre). LISTSIZE - i)") auto

declare check_lists.simps [simp del]

partial_function (option) check_heap_walk ::
  "mstate \<Rightarrow> addr \<Rightarrow> 32 word \<Rightarrow> 32 word \<Rightarrow> 64 word \<Rightarrow> 64 word
     \<Rightarrow> (32 word \<times> 64 word \<times> 64 word) option option" where
  "check_heap_walk s bp count consec pld_size fre_size_implicit =
     (if bp < mem_heap_hi s then
        (let (count', consec', pld', fre') =
               (if GET_ALLOC s (HDRP bp) = 0
                then (count - 1, consec + 1, pld_size, fre_size_implicit + GET_SIZE s (HDRP bp))
                else (count, consec, pld_size + GET_SIZE s (HDRP bp), fre_size_implicit))
         in if 2 \<le>s consec' then Some None
            else check_heap_walk s (NEXT_BLKP s bp) count' (consec' - 1) pld' fre')
      else Some (Some (count, pld_size, fre_size_implicit)))"

declare check_heap_walk.simps [code]

definition mm_check :: "mstate \<Rightarrow> int option" where
  "mm_check s =
     (if GET_SIZE s (HDRP (heap_ptr s)) \<noteq> DSIZE \<or> GET_ALLOC s (HDRP (heap_ptr s)) = 0 then Some 0
      else if GET_SIZE s (mem_heap_hi s - WSIZE + 1) \<noteq> 0
              \<or> GET_ALLOC s (mem_heap_hi s - WSIZE + 1) = 0 then Some 0
      else
        (case check_lists s 0 0 0 of
           None \<Rightarrow> None
         | Some None \<Rightarrow> Some 0
         | Some (Some (count, fre_size_explicit)) \<Rightarrow>
             (case check_heap_walk s (heap_ptr s) count 0 0 0 of
                None \<Rightarrow> None
              | Some None \<Rightarrow> Some 0
              | Some (Some (count', pld_size, fre_size_implicit)) \<Rightarrow>
                  if count' <s 0 then Some 0
                  else if 0 <s count' then Some 0
                  else if fre_size_explicit \<noteq> fre_size_implicit then Some 0
                  else if fre_size_explicit + pld_size + word_of_nat (LISTSIZE + 2) * WSIZE
                            > mem_heapsize s then Some 0
                  else Some 1)))"


section \<open>Reachable heaps\<close>

text \<open>
  With \<open>DEBUG\<close>, \<open>mm_init\<close> starts from a heap that memlib has just reset: the break
  is at the start of the heap.  A heap is reachable when \<open>mm_init\<close> succeeded on such a
  heap and any calls of \<open>mm_malloc\<close>, \<open>mm_free\<close> and \<open>mm_realloc\<close> that returned
  followed.
\<close>

definition fresh :: "mstate \<Rightarrow> bool" where
  "fresh s \<longleftrightarrow> mem_brk s = mem_start_brk s"

inductive reachable :: "mstate \<Rightarrow> bool" where
  init: "fresh s0 \<Longrightarrow> mm_init s0 = Some (0, s) \<Longrightarrow> reachable s"
| malloc: "reachable s \<Longrightarrow> mm_malloc s n = Some (p, s') \<Longrightarrow> reachable s'"
| free: "reachable s \<Longrightarrow> mm_free s p = Some s' \<Longrightarrow> reachable s'"
| realloc: "reachable s \<Longrightarrow> mm_realloc s p n = Some (Inr (q, s')) \<Longrightarrow> reachable s'"

definition layout :: "mstate \<Rightarrow> bool" where
  "layout s \<longleftrightarrow>
     heap_ptr s = mem_start_brk s + word_of_nat (LISTSIZE + 2) * WSIZE
     \<and> unat (mem_start_brk s) \<le> unat (mem_brk s)
     \<and> (mem_brk s - mem_start_brk s) AND 7 = 0"

section \<open>The scan of the free-list classes, as the specification words it\<close>

text \<open>
  The specification describes the choice of \<open>mm_malloc\<close> as: scan the classes from the
  smallest upward and take the head of the first non-empty class whose head block is
  strictly larger than the aligned request.  \<open>first_fit_class\<close> is that description;
  \<open>find_fit\<close> above is the loop of the source.
\<close>

definition class_head :: "mstate \<Rightarrow> nat \<Rightarrow> addr" where
  "class_head s i = GET s (freelists s i)"

definition head_fits :: "mstate \<Rightarrow> 64 word \<Rightarrow> nat \<Rightarrow> bool" where
  "head_fits s asize i = (class_head s i \<noteq> 0 \<and> GET_SIZE s (HDRP (class_head s i)) > asize)"

definition first_fit_class :: "mstate \<Rightarrow> 64 word \<Rightarrow> nat option" where
  "first_fit_class s asize = List.find (head_fits s asize) [0..<LISTSIZE]"

text \<open>The part of the state that only memlib and \<open>mm_init\<close> change.\<close>

definition bounds :: "mstate \<Rightarrow> addr \<times> addr \<times> addr \<times> addr" where
  "bounds s = (heap_ptr s, mem_start_brk s, mem_brk s, mem_max_addr s)"

section \<open>A concrete run\<close>

text \<open>
  A fresh memlib heap of zeroed memory at address \<open>0x1000\<close> that may grow up to
  \<open>0x100000\<close>, and the heaps that \<open>mm_init\<close>, three \<open>mm_malloc(16)\<close>, the
  \<open>mm_free\<close> of the second block and a fourth \<open>mm_malloc(16)\<close> produce from it
  (\<open>heap1\<close> to \<open>heap6\<close>); \<open>heap7\<close> is \<open>heap1\<close> after \<open>mm_malloc(17)\<close>,
  \<open>heap8\<close> is \<open>heap5\<close> after \<open>mm_realloc(4304, 100)\<close> and \<open>heap9\<close> is \<open>heap1\<close>
  after \<open>mm_malloc(200)\<close>.
\<close>

definition heap0 :: mstate where
  "heap0 = \<lparr>mem = (\<lambda>_. 0), heap_ptr = 0, mem_start_brk = 0x1000, mem_brk = 0x1000,
     mem_max_addr = 0x100000\<rparr>"

definition heap1 :: mstate where
  "heap1 =
     \<lparr>mem =
        (\<lambda>_. 0)
        (4096 := 0, 4232 := 17, 4240 := 17, 4104 := 0, 4112 := 0, 4120 := 0,
           4136 := 0, 4144 := 0, 4152 := 0, 4160 := 0, 4168 := 0, 4176 := 0,
           4184 := 0, 4192 := 0, 4200 := 0, 4208 := 0, 4216 := 0, 4224 := 0,
           4248 := 144, 4384 := 144, 4392 := 1, 4256 := 0, 4264 := 0,
           4128 := 4256),
        heap_ptr = 4240, mem_start_brk = 4096, mem_brk = 4400,
        mem_max_addr = 1048576\<rparr>"

definition heap2 :: mstate where
  "heap2 =
     \<lparr>mem =
        (\<lambda>_. 0)
        (4096 := 0, 4232 := 17, 4240 := 17, 4104 := 0, 4112 := 0, 4136 := 0,
           4144 := 0, 4152 := 0, 4160 := 0, 4168 := 0, 4176 := 0, 4184 := 0,
           4192 := 0, 4200 := 0, 4208 := 0, 4216 := 0, 4224 := 0, 4392 := 1,
           4128 := 0, 4248 := 112, 4352 := 112, 4360 := 33, 4384 := 33,
           4256 := 0, 4264 := 0, 4120 := 4256),
        heap_ptr = 4240, mem_start_brk = 4096, mem_brk = 4400,
        mem_max_addr = 1048576\<rparr>"

definition heap3 :: mstate where
  "heap3 =
     \<lparr>mem =
        (\<lambda>_. 0)
        (4096 := 0, 4232 := 17, 4240 := 17, 4104 := 0, 4112 := 0, 4136 := 0,
           4144 := 0, 4152 := 0, 4160 := 0, 4168 := 0, 4176 := 0, 4184 := 0,
           4192 := 0, 4200 := 0, 4208 := 0, 4216 := 0, 4224 := 0, 4392 := 1,
           4128 := 0, 4360 := 33, 4384 := 33, 4248 := 80, 4320 := 80,
           4328 := 33, 4352 := 33, 4256 := 0, 4264 := 0, 4120 := 4256),
        heap_ptr = 4240, mem_start_brk = 4096, mem_brk = 4400,
        mem_max_addr = 1048576\<rparr>"

definition heap4 :: mstate where
  "heap4 =
     \<lparr>mem =
        (\<lambda>_. 0)
        (4096 := 0, 4232 := 17, 4240 := 17, 4104 := 0, 4136 := 0, 4144 := 0,
           4152 := 0, 4160 := 0, 4168 := 0, 4176 := 0, 4184 := 0, 4192 := 0,
           4200 := 0, 4208 := 0, 4216 := 0, 4224 := 0, 4392 := 1, 4128 := 0,
           4360 := 33, 4384 := 33, 4328 := 33, 4352 := 33, 4120 := 0,
           4248 := 48, 4288 := 48, 4296 := 33, 4320 := 33, 4256 := 0,
           4264 := 0, 4112 := 4256),
        heap_ptr = 4240, mem_start_brk = 4096, mem_brk = 4400,
        mem_max_addr = 1048576\<rparr>"

definition heap5 :: mstate where
  "heap5 =
     \<lparr>mem =
        (\<lambda>_. 0)
        (4096 := 0, 4232 := 17, 4240 := 17, 4136 := 0, 4144 := 0, 4152 := 0,
           4160 := 0, 4168 := 0, 4176 := 0, 4184 := 0, 4192 := 0, 4200 := 0,
           4208 := 0, 4216 := 0, 4224 := 0, 4392 := 1, 4128 := 0, 4360 := 33,
           4384 := 33, 4120 := 0, 4248 := 48, 4288 := 48, 4296 := 33,
           4320 := 33, 4256 := 0, 4264 := 0, 4112 := 4256, 4328 := 32,
           4352 := 32, 4336 := 0, 4344 := 0, 4104 := 4336),
        heap_ptr = 4240, mem_start_brk = 4096, mem_brk = 4400,
        mem_max_addr = 1048576\<rparr>"

definition heap6 :: mstate where
  "heap6 =
     \<lparr>mem =
        (\<lambda>_. 0)
        (4096 := 0, 4232 := 17, 4240 := 17, 4136 := 0, 4144 := 0, 4152 := 0,
           4160 := 0, 4168 := 0, 4176 := 0, 4184 := 0, 4192 := 0, 4200 := 0,
           4208 := 0, 4216 := 0, 4224 := 0, 4392 := 1, 4128 := 0, 4360 := 33,
           4384 := 33, 4120 := 0, 4296 := 33, 4320 := 33, 4256 := 0,
           4264 := 0, 4328 := 32, 4352 := 32, 4336 := 0, 4344 := 0,
           4104 := 4336, 4112 := 0, 4248 := 49, 4288 := 49),
        heap_ptr = 4240, mem_start_brk = 4096, mem_brk = 4400,
        mem_max_addr = 1048576\<rparr>"


definition heap8 :: mstate where
  "heap8 =
     \<lparr>mem =
        (\<lambda>_. 0)
        (4096 := 0, 4232 := 17, 4240 := 17, 4136 := 0, 4144 := 0,
           4152 := 0, 4160 := 0, 4176 := 0, 4184 := 0, 4192 := 0,
           4200 := 0, 4208 := 0, 4216 := 0, 4224 := 0, 4128 := 0,
           4360 := 33, 4384 := 33, 4120 := 0, 4248 := 48, 4288 := 48,
           4320 := 33, 4256 := 0, 4264 := 0, 4112 := 4256, 4328 := 32,
           4352 := 32, 4336 := 0, 4344 := 0, 4392 := 4112, 8496 := 4112,
           8504 := 1, 4400 := 0, 4408 := 0, 4168 := 4400, 4104 := 0,
           4296 := 4177, 8464 := 4177),
        heap_ptr = 4240, mem_start_brk = 4096, mem_brk = 8512,
        mem_max_addr = 1048576\<rparr>"

definition heap9 :: mstate where
  "heap9 =
     \<lparr>mem =
        (\<lambda>_. 0)
        (4096 := 0, 4232 := 17, 4240 := 17, 4104 := 0, 4112 := 0,
           4120 := 0, 4136 := 0, 4144 := 0, 4152 := 0, 4176 := 0,
           4184 := 0, 4192 := 0, 4200 := 0, 4208 := 0, 4216 := 0,
           4224 := 0, 4384 := 144, 4392 := 4112, 8504 := 1, 4400 := 0,
           4408 := 0, 4128 := 0, 4256 := 0, 4264 := 0, 4168 := 0,
           4248 := 217, 4456 := 217, 4464 := 4040, 8496 := 4040,
           4472 := 0, 4480 := 0, 4160 := 4472),
        heap_ptr = 4240, mem_start_brk = 4096, mem_brk = 8512,
        mem_max_addr = 1048576\<rparr>"

text \<open>\<open>heap1\<close> after \<open>extend_heap(4112)\<close>.\<close>

definition heap1g :: mstate where
  "heap1g =
     \<lparr>mem =
        (\<lambda>_. 0)
        (4096 := 0, 4232 := 17, 4240 := 17, 4104 := 0, 4112 := 0, 4120 := 0,
           4136 := 0, 4144 := 0, 4152 := 0, 4160 := 0, 4176 := 0, 4184 := 0,
           4192 := 0, 4200 := 0, 4208 := 0, 4216 := 0, 4224 := 0, 4384 := 144,
           4392 := 4112, 8504 := 1, 4400 := 0, 4408 := 0, 4128 := 0,
           8496 := 4256, 4248 := 4256, 4256 := 0, 4264 := 0, 4168 := 4256),
        heap_ptr = 4240, mem_start_brk = 4096, mem_brk = 8512,
        mem_max_addr = 1048576\<rparr>"

section \<open>Evaluation\<close>

lemmas macro_defs = ALIGNMENT_def WSIZE_def DSIZE_def CHUNKSIZE_def INITSIZE_def LISTSIZE_def
  THRESHOLD_def ALIGN_def MAX_size_def MAX_int_def PACK_def GET_def PUT_def GET_SIZE_def
  GET_ALLOC_def HDRP_def FTRP_def NEXT_BLKP_def PREV_BLKP_def PRED_BLKP_def SUCC_BLKP_def
  freelists_def

lemmas op_defs = mem_sbrk_def align_size_def index_of_def add_free_link_def add_free_def
  pop_free_def coalesce_prev_def coalesce_next_def coalesce_def extend_heap_def place_fb_def
  place_def mm_init_def mm_malloc_def mm_free_def memcpy_def realloc_merge_def mm_realloc_def

lemmas eval_rules = macro_defs op_defs index_of_loop.simps add_free_walk.simps find_fit.simps
  init_lists.simps Let_def

text \<open>Evaluate the bound value of a \<open>let\<close> and the scrutinee of a \<open>case\<close> first.\<close>

lemmas eval_congs = let_weak_cong prod.case_cong_weak option.case_cong_weak if_weak_cong

lemma run_init: "mm_init heap0 = Some (0, heap1)"
  by (simp add: heap0_def heap1_def eval_rules cong: eval_congs)

lemma run_malloc1: "mm_malloc heap1 16 = Some (4368, heap2)"
  by (simp add: heap1_def heap2_def eval_rules cong: eval_congs)

lemma run_malloc2: "mm_malloc heap2 16 = Some (4336, heap3)"
  by (simp add: heap2_def heap3_def eval_rules cong: eval_congs)

lemma run_malloc3: "mm_malloc heap3 16 = Some (4304, heap4)"
  by (simp add: heap3_def heap4_def eval_rules cong: eval_congs)

lemma run_free2: "mm_free heap4 4336 = Some heap5"
  by (simp add: heap4_def heap5_def eval_rules cong: eval_congs)

lemma run_malloc4: "mm_malloc heap5 16 = Some (4256, heap6)"
  by (simp add: heap5_def heap6_def eval_rules cong: eval_congs)


lemma run_realloc100: "mm_realloc heap5 4304 100 = Some (Inr (4304, heap8))"
  by (simp add: heap5_def heap8_def eval_rules word_sless_alt word_sle_eq cong: eval_congs)

lemma run_extend: "extend_heap heap1 (max (align_size 200) 4112) = Some (4256, heap1g)"
  by (simp add: heap1_def heap1g_def eval_rules cong: eval_congs)

lemma run_malloc200: "mm_malloc heap1 200 = Some (4256, heap9)"
  by (simp add: heap1_def heap9_def eval_rules cong: eval_congs)

section \<open>Alignment of block sizes\<close>

lemma and7_unat: "(w :: 64 word) AND 7 = 0 \<Longrightarrow> unat w mod 8 = 0"
proof -
  assume a: "w AND 7 = 0"
  have "take_bit 3 w = 0" using a by (simp add: take_bit_eq_mask mask_eq_exp_minus_1)
  then have "unat (take_bit 3 w) = 0" by simp
  then have "take_bit 3 (unat w) = 0" by (simp only: unsigned_take_bit_eq)
  then show ?thesis by (simp add: take_bit_eq_mod)
qed


lemma ALIGN_mod8: "unat (ALIGN sz) mod 8 = 0"
proof -
  have "unat ((sz + 7) div 8 * 8) = unat ((sz + 7) div 8) * 8"
  proof -
    have "unat ((sz + 7) div 8) * unat (8 :: 64 word) < 2 ^ 64"
      using unsigned_less [of "sz + 7", where ?'a = nat] by (simp add: unat_div)
    then show ?thesis by (simp add: unat_mult_lem [THEN iffD1])
  qed
  then show ?thesis by (simp add: ALIGN_def ALIGNMENT_def)
qed

lemma align_size_mod8: "unat (align_size n) mod 8 = 0"
  by (simp add: align_size_def ALIGN_mod8 DSIZE_def WSIZE_def)



section \<open>Resizing to zero\<close>

text \<open>
  C2, as stated: \<open>resize(p, 0)\<close> frees the block \<open>p\<close> and returns null.  It fails:
  after \<open>mm_realloc\<close> with size 0 on the block that \<open>mm_malloc(16)\<close> returned in
  \<open>heap2\<close>, the heap is \<open>heap2\<close> still and the header of the block is marked allocated.
\<close>

theorem C2_counterexample:
  "mm_malloc heap1 16 = Some (4368, heap2)
   \<and> mm_realloc heap2 4368 0 = Some (Inr (0, heap2))
   \<and> GET_ALLOC heap2 (HDRP 4368) = 1"
proof -
  have "mm_realloc heap2 4368 0 = Some (Inr (0, heap2))"
    by (simp add: mm_realloc_def)
  moreover have "GET_ALLOC heap2 (HDRP 4368) = 1"
    by (simp add: heap2_def macro_defs)
  ultimately show ?thesis
    using run_malloc1 by simp
qed

text \<open>
  C2, amended: for every block \<open>p\<close>, \<open>resize(p, 0)\<close> returns null and leaves the heap
  exactly as it was; the block is not freed.
\<close>

theorem C2_resize_zero_returns_null_unchanged:
  "mm_realloc s bp 0 = Some (Inr (0, s))"
  by (simp add: mm_realloc_def)

section \<open>Failure of the fallback allocation in \<open>mm_realloc\<close>\<close>

text \<open>
  C1: when \<open>resize\<close> fails, the block is left valid and untouched.  In \<open>heap4\<close> the
  block at 4304 is followed by an allocated block, so \<open>mm_realloc\<close> relocates; a request
  of \<open>0x200000\<close> bytes cannot be served within the heap limit, the fallback
  \<open>mm_malloc\<close> returns null, and \<open>mm_realloc\<close> hands that null pointer to \<open>memcpy\<close>
  (and would free the block next) instead of returning null with the block untouched.
\<close>

theorem C1_relocate_failure_writes_through_null:
  "mm_malloc heap4 (align_size 0x200000) = Some (0, heap4)
   \<and> GET_ALLOC heap4 (HDRP (NEXT_BLKP heap4 4304)) = 1
   \<and> GET_SIZE heap4 (HDRP (NEXT_BLKP heap4 4304)) \<noteq> 0
   \<and> mm_realloc heap4 4304 0x200000 = Some (Inl NullWrite)"
  by (simp add: heap4_def eval_rules cong: eval_congs)

section \<open>What the helpers leave unchanged\<close>

lemma bounds_PUT [simp]: "bounds (PUT s p v) = bounds s"
  by (simp add: bounds_def PUT_def)

lemma freelists_bounds: "bounds s' = bounds s \<Longrightarrow> freelists s' i = freelists s i"
  by (simp add: bounds_def freelists_def)

lemma bounds_pop_free [simp]: "bounds (pop_free s bp) = bounds s"
  by (simp add: pop_free_def Let_def)

lemma bounds_add_free_link [simp]: "bounds (add_free_link s bp i p c) = bounds s"
  by (simp add: add_free_link_def Let_def)

lemma bounds_add_free: "add_free s bp sz = Some s' \<Longrightarrow> bounds s' = bounds s"
  by (auto simp: add_free_def Let_def split: option.splits)

lemma bounds_coalesce_prev [simp]: "bounds (fst (coalesce_prev s bp sz)) = bounds s"
  by (simp add: coalesce_prev_def Let_def)

lemma bounds_coalesce_next [simp]: "bounds (fst (coalesce_next s bp sz)) = bounds s"
  by (simp add: coalesce_next_def Let_def)

lemma bounds_coalesce: "coalesce s bp = Some (q, s') \<Longrightarrow> bounds s' = bounds s"
  by (auto simp: coalesce_def Let_def coalesce_prev_def coalesce_next_def split: option.splits if_splits prod.splits dest!: bounds_add_free)

lemma bounds_place_fb [simp]: "bounds (place_fb s bp f b a) = bounds s"
  by (simp add: place_fb_def Let_def)

lemma bounds_place: "place s bp sz = Some (q, s') \<Longrightarrow> bounds s' = bounds s"
  by (auto simp: place_def Let_def split: option.splits if_splits dest!: bounds_add_free)

lemma extend_heap_brk:
  "extend_heap s n = Some (bp, s') \<Longrightarrow> bp \<noteq> 0 \<Longrightarrow> mem_brk s' = mem_brk s + ALIGN n"
  apply (auto simp: extend_heap_def Let_def mem_sbrk_def split: option.splits if_splits prod.splits dest!: bounds_add_free bounds_coalesce)
  apply (simp add: bounds_def)
  done


lemma find_fit_strict:
  "find_fit s a i = 0 \<or> a < GET_SIZE s (HDRP (find_fit s a i))"
proof (induction s a i rule: find_fit.induct)
  case (1 s sz index)
  show ?case
  proof (cases "index < LISTSIZE")
    case False
    then show ?thesis by (simp add: find_fit.simps [of s sz index])
  next
    case True
    show ?thesis
    proof (cases "GET s (freelists s index) \<noteq> 0
            \<and> GET_SIZE s (HDRP (GET s (freelists s index))) > sz")
      case fits: True
      with True show ?thesis by (simp add: find_fit.simps [of s sz index])
    next
      case nofit: False
      with True "1.IH" show ?thesis by (simp add: find_fit.simps [of s sz index])
    qed
  qed
qed

lemma find_fit_find:
  "find_fit s a i =
     (case List.find (head_fits s a) [i..<LISTSIZE] of None \<Rightarrow> 0 | Some j \<Rightarrow> class_head s j)"
proof (induction s a i rule: find_fit.induct)
  case (1 s sz index)
  show ?case
  proof (cases "index < LISTSIZE")
    case False
    then show ?thesis by (simp add: find_fit.simps [of s sz index])
  next
    case True
    then have upt: "[index..<LISTSIZE] = index # [index + 1..<LISTSIZE]"
      by (simp add: upt_conv_Cons)
    show ?thesis
    proof (cases "head_fits s sz index")
      case fits: True
      with True show ?thesis
        by (simp add: find_fit.simps [of s sz index] upt head_fits_def class_head_def)
    next
      case nofit: False
      then have "find_fit s sz index = find_fit s sz (index + 1)"
        using True by (auto simp: find_fit.simps [of s sz index] head_fits_def class_head_def)
      with nofit True "1.IH" show ?thesis
        by (auto simp: upt head_fits_def class_head_def)
    qed
  qed
qed

lemma ALIGN_id: "unat x mod 8 = 0 \<Longrightarrow> ALIGN x = x"
proof -
  assume a: "unat x mod 8 = 0"
  have lt: "unat x < 18446744073709551616" using unsigned_less [of x, where ?'a = nat] by simp
  from a lt have "unat x + 7 < 18446744073709551616" by presburger
  then have u: "unat (x + 7) = unat x + 7"
    by (simp add: unat_add_lem [THEN iffD1])
  have "unat ((x + 7) div 8) = (unat x + 7) div 8" by (simp add: unat_div u)
  also have "\<dots> = unat x div 8" using a by presburger
  finally have d: "unat ((x + 7) div 8) = unat x div 8" .
  have "unat ((x + 7) div 8 * 8) = unat x div 8 * 8"
  proof -
    have "unat ((x + 7) div 8) * unat (8 :: 64 word) < 2 ^ 64" using d lt by simp
    then show ?thesis using d by (simp add: unat_mult_lem [THEN iffD1])
  qed
  also have "\<dots> = unat x" using a by presburger
  finally show ?thesis by (simp add: ALIGN_def ALIGNMENT_def word_unat_eq_iff)
qed

lemma growth_aligned:
  "ALIGN (MAX_size (align_size n) CHUNKSIZE) = MAX_size (align_size n) CHUNKSIZE"
proof (rule ALIGN_id)
  have "unat CHUNKSIZE mod 8 = 0" by (simp add: CHUNKSIZE_def DSIZE_def WSIZE_def)
  then show "unat (MAX_size (align_size n) CHUNKSIZE) mod 8 = 0"
    by (simp add: MAX_size_def align_size_mod8)
qed

section \<open>The choice of the candidate block in \<open>mm_malloc\<close>\<close>

text \<open>
  C7: for a request of non-zero size, \<open>mm_malloc\<close> places the request in the head of
  the first class, scanning from class 0 upward, whose head is non-null and strictly
  larger than the aligned request; no list is walked past its head.  When no head
  qualifies, the heap is grown by the larger of the aligned size and 4112
  (\<open>CHUNKSIZE\<close>): a growth that succeeds moves the break by exactly that amount, and
  the request is placed in the block that \<open>extend_heap\<close> returns, the new region
  coalesced with the free block before it.  On \<open>heap1\<close>, whose only block is the free
  block at 4256 of size 144, \<open>mm_malloc(200)\<close> finds no head larger than 216, moves
  the break from 4400 to 8512 and returns 4256, the start of the old free block, with
  the header 216 (allocated); the rest of the coalesced block of size 144 + 4112 is the
  free block at 4472 of size 4040.
\<close>

theorem C7_malloc_candidate:
  assumes "size0 \<noteq> 0"
  shows "mm_malloc s size0 =
           (case first_fit_class s (align_size size0) of
              Some i \<Rightarrow> place s (class_head s i) (align_size size0)
            | None \<Rightarrow>
                (case extend_heap s (max (align_size size0) 4112) of
                   None \<Rightarrow> None
                 | Some (bp, s1) \<Rightarrow>
                     if bp = 0 then Some (0, s1) else place s1 bp (align_size size0)))
         \<and> (\<forall>i. first_fit_class s (align_size size0) = Some i \<longrightarrow>
                i < LISTSIZE \<and> head_fits s (align_size size0) i
                \<and> (\<forall>j<i. \<not> head_fits s (align_size size0) j))
         \<and> (\<forall>bp s1. extend_heap s (max (align_size size0) 4112) = Some (bp, s1) \<longrightarrow>
                bp \<noteq> 0 \<longrightarrow> mem_brk s1 = mem_brk s + max (align_size size0) 4112)
         \<and> first_fit_class heap1 (align_size 200) = None
         \<and> GET heap1 (HDRP 4256) = 144 \<and> mem_brk heap1 = 4400
         \<and> extend_heap heap1 (max (align_size 200) 4112) = Some (4256, heap1g)
         \<and> GET heap1g (HDRP 4256) = 4256 \<and> mem_brk heap1g = 8512
         \<and> mm_malloc heap1 200 = Some (4256, heap9)
         \<and> GET heap9 (HDRP 4256) = 217 \<and> GET heap9 (HDRP 4472) = 4040"
proof (intro conjI allI impI)
  let ?a = "align_size size0"
  have mx: "MAX_size ?a CHUNKSIZE = max ?a 4112"
    by (auto simp: MAX_size_def CHUNKSIZE_def DSIZE_def WSIZE_def max_def)
  show "mm_malloc s size0 =
           (case first_fit_class s ?a of
              Some i \<Rightarrow> place s (class_head s i) ?a
            | None \<Rightarrow>
                (case extend_heap s (max ?a 4112) of
                   None \<Rightarrow> None
                 | Some (bp, s1) \<Rightarrow> if bp = 0 then Some (0, s1) else place s1 bp ?a))"
  proof (cases "first_fit_class s ?a")
    case None
    then have "find_fit s ?a 0 = 0"
      by (simp add: find_fit_find first_fit_class_def)
    with None assms show ?thesis
      by (simp add: mm_malloc_def Let_def mx)
  next
    case (Some i)
    then have ff: "find_fit s ?a 0 = class_head s i"
      by (simp add: find_fit_find first_fit_class_def)
    from Some have "head_fits s ?a i"
      by (auto simp: first_fit_class_def find_Some_iff)
    then have "class_head s i \<noteq> 0" by (simp add: head_fits_def)
    with Some ff assms show ?thesis
      by (simp add: mm_malloc_def Let_def)
  qed
  fix bp s1
  assume "extend_heap s (max (align_size size0) 4112) = Some (bp, s1)" "bp \<noteq> 0"
  then show "mem_brk s1 = mem_brk s + max (align_size size0) 4112"
    using extend_heap_brk growth_aligned mx by metis
next
  fix i assume "first_fit_class s (align_size size0) = Some i"
  then have *: "\<exists>k<length [0..<LISTSIZE]. head_fits s (align_size size0) ([0..<LISTSIZE] ! k)
       \<and> i = [0..<LISTSIZE] ! k \<and> (\<forall>j<k. \<not> head_fits s (align_size size0) ([0..<LISTSIZE] ! j))"
    by (simp add: first_fit_class_def find_Some_iff)
  then obtain k where k: "k < LISTSIZE" "head_fits s (align_size size0) ([0..<LISTSIZE] ! k)"
      "i = [0..<LISTSIZE] ! k" "\<forall>j<k. \<not> head_fits s (align_size size0) ([0..<LISTSIZE] ! j)"
    by auto
  from k(1) k(3) have ik: "i = k" by simp
  show "i < LISTSIZE" using ik k(1) by simp
  show "head_fits s (align_size size0) i" using k(1,2) ik by simp
  fix j assume "j < i"
  then show "\<not> head_fits s (align_size size0) j" using k(1,4) ik by auto
next
  show "first_fit_class heap1 (align_size 200) = None"
    by (simp add: first_fit_class_def head_fits_def class_head_def heap1_def align_size_def
        macro_defs upt_conv_Cons)
  show "GET heap1 (HDRP 4256) = 144" by (simp add: heap1_def macro_defs)
  show "mem_brk heap1 = 4400" by (simp add: heap1_def)
  show "extend_heap heap1 (max (align_size 200) 4112) = Some (4256, heap1g)"
    by (rule run_extend)
  show "GET heap1g (HDRP 4256) = 4256" by (simp add: heap1g_def macro_defs)
  show "mem_brk heap1g = 8512" by (simp add: heap1g_def)
  show "mm_malloc heap1 200 = Some (4256, heap9)" by (rule run_malloc200)
  show "GET heap9 (HDRP 4256) = 217" by (simp add: heap9_def macro_defs)
  show "GET heap9 (HDRP 4472) = 4040" by (simp add: heap9_def macro_defs)
qed

text \<open>
  The theorem at two requests on \<open>heap1\<close>: \<open>mm_malloc(16)\<close> takes the head of class
  3, the first head larger than 32; \<open>mm_malloc(200)\<close> finds no head and grows the heap.
\<close>

theorem C7_witness:
  "(16 :: 64 word) \<noteq> 0 \<and> (200 :: 64 word) \<noteq> 0
   \<and> first_fit_class heap1 (align_size 16) = Some 3
   \<and> mm_malloc heap1 16 = place heap1 (class_head heap1 3) (align_size 16)
   \<and> head_fits heap1 (align_size 16) 3
   \<and> first_fit_class heap1 (align_size 200) = None
   \<and> extend_heap heap1 (max (align_size 200) 4112) = Some (4256, heap1g)
   \<and> mem_brk heap1g = mem_brk heap1 + max (align_size 200) 4112
   \<and> mm_malloc heap1 200 = place heap1g 4256 (align_size 200)"
proof -
  have f: "first_fit_class heap1 (align_size 16) = Some 3"
    by (simp add: first_fit_class_def head_fits_def class_head_def heap1_def align_size_def
        macro_defs upt_conv_Cons)
  show ?thesis
    using C7_malloc_candidate [of 16 heap1] C7_malloc_candidate [of 200 heap1] f by simp
qed

section \<open>Reuse of a freed block of exactly the requested size\<close>

text \<open>
  C4, as stated: after three \<open>allocate(16)\<close> that yield contiguous blocks and the release
  of the middle one, the next \<open>allocate(16)\<close> returns the address of the middle block.
  It fails on the initial heap: the three blocks are 4304, 4336 and 4368, each of 32
  bytes (the second call returned 4336), and after \<open>mm_free(4336)\<close> the fourth call returns
  4256.
\<close>

theorem C4_counterexample:
  "mm_init heap0 = Some (0, heap1)
   \<and> mm_malloc heap1 16 = Some (4368, heap2)
   \<and> mm_malloc heap2 16 = Some (4336, heap3)
   \<and> mm_malloc heap3 16 = Some (4304, heap4)
   \<and> NEXT_BLKP heap4 4304 = 4336 \<and> NEXT_BLKP heap4 4336 = 4368
   \<and> mm_free heap4 4336 = Some heap5
   \<and> mm_malloc heap5 16 = Some (4256, heap6)
   \<and> (4256 :: addr) \<noteq> 4336"
proof -
  have "NEXT_BLKP heap4 4304 = 4336 \<and> NEXT_BLKP heap4 4336 = 4368"
    by (simp add: heap4_def macro_defs)
  then show ?thesis
    using run_init run_malloc1 run_malloc2 run_malloc3 run_free2 run_malloc4 by simp
qed

text \<open>
  C4, amended: the scan of \<open>mm_malloc\<close> takes a list head only when its size is strictly
  larger than the aligned request, so it never returns a block whose size equals the
  aligned request.  In the run above the freed middle block has exactly the aligned size
  32 and is the head of class 0 before and after the fourth \<open>allocate(16)\<close>; the call
  takes the 48-byte free block at 4256, the head of class 1, instead.
\<close>

theorem C4_exact_fit_head_is_skipped:
  "(find_fit s (align_size n) 0 = 0
      \<or> align_size n < GET_SIZE s (HDRP (find_fit s (align_size n) 0)))
   \<and> GET_SIZE heap5 (HDRP 4336) = align_size 16
   \<and> class_head heap5 0 = 4336
   \<and> class_head heap5 1 = 4256
   \<and> GET_SIZE heap5 (HDRP 4256) = 48
   \<and> find_fit heap5 (align_size 16) 0 = 4256
   \<and> mm_malloc heap5 16 = Some (4256, heap6)
   \<and> class_head heap6 0 = 4336
   \<and> GET_ALLOC heap6 (HDRP 4336) = 0"
proof -
  have "GET_SIZE heap5 (HDRP 4336) = align_size 16 \<and> class_head heap5 0 = 4336
      \<and> class_head heap5 1 = 4256 \<and> GET_SIZE heap5 (HDRP 4256) = 48"
    by (simp add: heap5_def class_head_def align_size_def macro_defs)
  moreover have "find_fit heap5 (align_size 16) 0 = 4256"
    by (simp add: heap5_def align_size_def macro_defs find_fit.simps cong: eval_congs)
  moreover have "class_head heap6 0 = 4336 \<and> GET_ALLOC heap6 (HDRP 4336) = 0"
    by (simp add: heap6_def class_head_def macro_defs)
  ultimately show ?thesis
    using find_fit_strict [of s "align_size n" 0] run_malloc4 by simp
qed

section \<open>The layout of reachable heaps\<close>

lemma and7_take_bit: "(w :: 64 word) AND 7 = 0 \<longleftrightarrow> take_bit 3 w = 0"
  by (simp add: take_bit_eq_mask mask_eq_exp_minus_1)

lemma and7_unat_iff: "((w :: 64 word) AND 7 = 0) = (unat w mod 8 = 0)"
proof
  assume "w AND 7 = 0" then show "unat w mod 8 = 0" by (rule and7_unat)
next
  assume "unat w mod 8 = 0"
  then have "take_bit 3 (unat w) = 0" by (simp add: take_bit_eq_mod)
  then have "unat (take_bit 3 w) = 0" by (simp only: unsigned_take_bit_eq)
  then have "take_bit 3 w = 0" by (simp add: unat_eq_0)
  then show "w AND 7 = 0" by (simp add: and7_take_bit)
qed

lemma mod8_mod64: "(x mod 18446744073709551616) mod 8 = (x :: nat) mod 8"
  by (rule mod_mod_cancel) simp

lemma and7_add: "(a :: 64 word) AND 7 = 0 \<Longrightarrow> b AND 7 = 0 \<Longrightarrow> (a + b) AND 7 = 0"
  unfolding and7_unat_iff
  by (simp add: unat_word_ariths mod8_mod64) presburger

lemma and7_diff: "(a :: 64 word) AND 7 = 0 \<Longrightarrow> b AND 7 = 0 \<Longrightarrow> (a - b) AND 7 = 0"
  unfolding and7_unat_iff
  by (simp add: unat_sub_if') presburger

lemma GET_SIZE_and7: "GET_SIZE s p AND 7 = 0"
  by (simp add: GET_SIZE_def word_bw_assocs)


lemma check_heap_walk_sum:
  assumes "check_heap_walk s0 bp0 count0 consec0 pld0 fi0 = Some r0"
  shows "\<forall>count' pld' fi'. r0 = Some (count', pld', fi') \<longrightarrow>
     (\<exists>bp'. \<not> bp' < mem_heap_hi s0 \<and> pld' + fi' = pld0 + fi0 + (bp' - bp0)
        \<and> (bp' - bp0) AND 7 = 0)"
proof (rule check_heap_walk.raw_induct
    [where P = "\<lambda>s bp count consec pld fi r.
       \<forall>count' pld' fi'. r = Some (count', pld', fi') \<longrightarrow>
         (\<exists>bp'. \<not> bp' < mem_heap_hi s \<and> pld' + fi' = pld + fi + (bp' - bp)
            \<and> (bp' - bp) AND 7 = 0)", OF _ assms])
  fix walk :: "mstate \<Rightarrow> addr \<Rightarrow> 32 word \<Rightarrow> 32 word \<Rightarrow> 64 word \<Rightarrow> 64 word
      \<Rightarrow> (32 word \<times> 64 word \<times> 64 word) option option"
    and s bp and count consec :: "32 word" and pld fi r
  assume IH: "\<And>s bp count consec pld fi y. walk s bp count consec pld fi = Some y \<Longrightarrow>
       \<forall>count' pld' fi'. y = Some (count', pld', fi') \<longrightarrow>
         (\<exists>bp'. \<not> bp' < mem_heap_hi s \<and> pld' + fi' = pld + fi + (bp' - bp)
            \<and> (bp' - bp) AND 7 = 0)"
  assume body: "(if bp < mem_heap_hi s
      then let (count', consec', pld', fre') =
                 if GET_ALLOC s (HDRP bp) = 0
                 then (count - 1, consec + 1, pld, fi + GET_SIZE s (HDRP bp))
                 else (count, consec, pld + GET_SIZE s (HDRP bp), fi)
           in if 2 \<le>s consec' then Some None
              else walk s (NEXT_BLKP s bp) count' (consec' - 1) pld' fre'
      else Some (Some (count, pld, fi))) = Some r"
  show "\<forall>count' pld' fi'. r = Some (count', pld', fi') \<longrightarrow>
         (\<exists>bp'. \<not> bp' < mem_heap_hi s \<and> pld' + fi' = pld + fi + (bp' - bp)
            \<and> (bp' - bp) AND 7 = 0)"
  proof (intro allI impI)
    fix count' pld' fi'
    assume r: "r = Some (count', pld', fi')"
    show "\<exists>bp'. \<not> bp' < mem_heap_hi s \<and> pld' + fi' = pld + fi + (bp' - bp)
            \<and> (bp' - bp) AND 7 = 0"
    proof (cases "bp < mem_heap_hi s")
      case False
      with body r have "count' = count" "pld' = pld" "fi' = fi" by simp_all
      with False show ?thesis by (intro exI [of _ bp]) simp
    next
      case True
      let ?sz = "GET_SIZE s (HDRP bp)"
      have nxt: "NEXT_BLKP s bp = bp + ?sz" by (simp add: NEXT_BLKP_def HDRP_def)
      show ?thesis
      proof (cases "GET_ALLOC s (HDRP bp) = 0")
        case free: True
        from body True free r have
          "walk s (bp + ?sz) (count - 1) consec pld (fi + ?sz) = Some r"
          by (auto simp: nxt split: if_splits)
        from IH [OF this] r obtain bp' where
          b: "\<not> bp' < mem_heap_hi s" "pld' + fi' = pld + (fi + ?sz) + (bp' - (bp + ?sz))"
             "(bp' - (bp + ?sz)) AND 7 = 0"
          by blast
        have "(bp' - (bp + ?sz)) + ?sz = bp' - bp" by simp
        then have "(bp' - bp) AND 7 = 0"
          using and7_add [OF b(3) GET_SIZE_and7 [of s "HDRP bp"]] by simp
        with b show ?thesis by (intro exI [of _ bp']) simp
      next
        case used: False
        from body True used r have
          "walk s (bp + ?sz) count (consec - 1) (pld + ?sz) fi = Some r"
          by (auto simp: nxt split: if_splits)
        from IH [OF this] r obtain bp' where
          b: "\<not> bp' < mem_heap_hi s" "pld' + fi' = (pld + ?sz) + fi + (bp' - (bp + ?sz))"
             "(bp' - (bp + ?sz)) AND 7 = 0"
          by blast
        have "(bp' - (bp + ?sz)) + ?sz = bp' - bp" by simp
        then have "(bp' - bp) AND 7 = 0"
          using and7_add [OF b(3) GET_SIZE_and7 [of s "HDRP bp"]] by simp
        with b show ?thesis by (intro exI [of _ bp']) simp
      qed
    qed
  qed
qed

lemma mod8_pred_contra:
  "(B - 1 - S) mod 8 = 0 \<Longrightarrow> (B - S) mod 8 = (0::nat) \<Longrightarrow> S \<le> B - 1 \<Longrightarrow> 0 < B \<Longrightarrow> False"
proof -
  assume a: "(B - 1 - S) mod 8 = 0" "(B - S) mod 8 = (0::nat)" "S \<le> B - 1" "0 < B"
  then have "B - S = Suc (B - 1 - S)" by linarith
  then have "(B - S) mod 8 = Suc ((B - 1 - S) mod 8) mod 8" by (simp add: mod_Suc_eq)
  with a show False by simp
qed

lemma walk_end_exact:
  fixes S B F :: "64 word"
  assumes le: "unat S \<le> unat B"
    and al: "(B - S) AND 7 = 0"
    and stop: "\<not> F < B - 1"
    and fal: "(F - S) AND 7 = 0"
    and chk: "\<not> (F - S > B - S)"
  shows "F - S = B - S"
proof -
  have bs: "unat (B - S) = unat B - unat S" using le by (simp add: unat_sub word_le_nat_alt)
  have hm: "(unat B - unat S) mod 8 = 0" using al bs by (simp add: and7_unat_iff)
  have dm: "unat (F - S) mod 8 = 0" using fal by (simp add: and7_unat_iff)
  have dle: "unat (F - S) \<le> unat B - unat S" using chk bs by (simp add: word_less_nat_alt)
  have fs: "unat (F - S) =
      (if unat S \<le> unat F then unat F - unat S else unat F + 18446744073709551616 - unat S)"
    by (simp add: unat_sub_if')
  have Flt: "unat F < 18446744073709551616" using unsigned_less [of F, where ?'a = nat] by simp
  have Blt: "unat B < 18446744073709551616" using unsigned_less [of B, where ?'a = nat] by simp
  show ?thesis
  proof (cases "B = 0")
    case True
    then have "unat S = 0" using le by simp
    then have "S = 0" by (simp add: unat_eq_0)
    with True chk show ?thesis by (simp add: word_less_nat_alt unat_eq_0)
  next
    case False
    then have b1: "unat (B - 1) = unat B - 1" by (simp add: unat_minus_one)
    have fge: "unat B - 1 \<le> unat F" using stop b1 by (simp add: word_less_nat_alt)
    have bpos: "0 < unat B" using False by (simp add: unat_gt_0)
    have "unat (F - S) = unat B - unat S"
    proof (cases "unat S \<le> unat F")
      case True
      then have d: "unat (F - S) = unat F - unat S" using fs by simp
      from dle d True le have "unat F \<le> unat B" by linarith
      with fge bpos have "unat F = unat B \<or> unat F = unat B - 1" by linarith
      then show ?thesis
      proof
        assume "unat F = unat B" with d show ?thesis by simp
      next
        assume e: "unat F = unat B - 1"
        have "(unat B - 1 - unat S) mod 8 = 0" using dm d e by simp
        from mod8_pred_contra [OF this hm] True e bpos show ?thesis by simp
      qed
    next
      case False
      then have "unat F + 18446744073709551616 - unat S \<le> unat B - unat S" using fs dle by simp
      with False fge le Flt Blt bpos show ?thesis by linarith
    qed
    then show ?thesis using bs by (simp add: word_unat_eq_iff)
  qed
qed


lemma ALIGN_and7: "ALIGN n AND 7 = 0"
  by (simp add: and7_unat_iff ALIGN_mod8)

lemma layout_bounds: "bounds s' = bounds s \<Longrightarrow> layout s \<Longrightarrow> layout s'"
  by (simp add: layout_def bounds_def)

lemma mem_sbrk_layout:
  assumes "layout s" and "incr AND 7 = 0"
  shows "layout (snd (mem_sbrk s incr))"
proof (cases "unat (mem_brk s) + unat incr \<le> unat (mem_max_addr s)")
  case False
  with assms show ?thesis by (simp add: mem_sbrk_def)
next
  case True
  have "unat (mem_max_addr s) < 2 ^ 64"
    using unsigned_less [of "mem_max_addr s", where ?'a = nat] by simp
  with True have "unat (mem_brk s) + unat incr < 2 ^ 64" by simp
  then have u: "unat (mem_brk s + incr) = unat (mem_brk s) + unat incr"
    by (simp add: unat_add_lem [THEN iffD1])
  have e: "mem_brk s + incr - mem_start_brk s = (mem_brk s - mem_start_brk s) + incr" by simp
  have "((mem_brk s - mem_start_brk s) + incr) AND 7 = 0"
    using and7_add [of "mem_brk s - mem_start_brk s" incr] assms by (simp add: layout_def)
  then have "(mem_brk s + incr - mem_start_brk s) AND 7 = 0" by (simp only: e)
  with True u assms show ?thesis by (simp add: mem_sbrk_def layout_def)
qed

lemma bounds_extend_heap:
  "extend_heap s n = Some (bp, s') \<Longrightarrow> bounds s' = bounds (snd (mem_sbrk s (ALIGN n)))"
  by (auto simp: extend_heap_def Let_def split: option.splits if_splits prod.splits
      dest!: bounds_add_free bounds_coalesce)

lemma extend_heap_layout: "extend_heap s n = Some (bp, s') \<Longrightarrow> layout s \<Longrightarrow> layout s'"
  using bounds_extend_heap layout_bounds mem_sbrk_layout ALIGN_and7 by blast

lemma bounds_mm_free: "mm_free s bp = Some s' \<Longrightarrow> bounds s' = bounds s"
  by (auto simp: mm_free_def Let_def split: option.splits dest!: bounds_add_free bounds_coalesce)

lemma place_layout: "place s bp sz = Some (q, s') \<Longrightarrow> layout s \<Longrightarrow> layout s'"
  using bounds_place layout_bounds by blast

lemma mm_malloc_layout:
  assumes "mm_malloc s n = Some (p, s')" and "layout s"
  shows "layout s'"
proof (cases "n = 0")
  case True
  with assms show ?thesis by (simp add: mm_malloc_def)
next
  case False
  let ?a = "align_size n"
  show ?thesis
  proof (cases "find_fit s ?a 0 = 0")
    case fit: False
    with False assms(1) have "place s (find_fit s ?a 0) ?a = Some (p, s')"
      by (simp add: mm_malloc_def Let_def)
    with assms(2) show ?thesis by (rule place_layout [rotated])
  next
    case True
    with False assms(1) obtain bp s1 where
      e: "extend_heap s (MAX_size ?a CHUNKSIZE) = Some (bp, s1)"
      and r: "(if bp = 0 then Some (0, s1) else place s1 bp ?a) = Some (p, s')"
      by (auto simp: mm_malloc_def Let_def split: option.splits)
    from e assms(2) have l1: "layout s1" by (rule extend_heap_layout)
    show ?thesis
    proof (cases "bp = 0")
      case True
      with r l1 show ?thesis by simp
    next
      case False
      with r have "place s1 bp ?a = Some (p, s')" by simp
      with l1 show ?thesis by (rule place_layout [rotated])
    qed
  qed
qed

lemma bounds_memcpy [simp]: "bounds (memcpy s d p n) = bounds s"
  by (simp add: bounds_def memcpy_def)

lemma bounds_realloc_merge [simp]: "bounds (realloc_merge s bp sz r) = bounds s"
  by (simp add: realloc_merge_def Let_def)

lemma layout_cong: "bounds s' = bounds s \<Longrightarrow> layout s' = layout s"
  by (simp add: layout_def bounds_def)

lemma layout_realloc_merge [simp]: "layout (realloc_merge s bp sz r) = layout s"
  by (rule layout_cong) simp

lemma layout_memcpy [simp]: "layout (memcpy s d p n) = layout s"
  by (rule layout_cong) simp

lemma mm_free_layout: "mm_free s bp = Some s' \<Longrightarrow> layout s \<Longrightarrow> layout s'"
  using bounds_mm_free layout_bounds by blast

lemma mm_realloc_cases:
  assumes "mm_realloc s bp n = Some (Inr (q, s'))"
  shows "s' = s
    \<or> (\<exists>m. extend_heap s m = Some (0, s'))
    \<or> (\<exists>m b s1 sz r. extend_heap s m = Some (b, s1) \<and> s' = realloc_merge s1 bp sz r)
    \<or> (\<exists>sz r. s' = realloc_merge s bp sz r)
    \<or> (\<exists>sz nb s1. mm_malloc s sz = Some (nb, s1)
          \<and> mm_free (memcpy s1 nb bp (GET_SIZE s1 (HDRP bp))) bp = Some s')"
  using assms
  by (simp add: mm_realloc_def Let_def split: option.splits if_splits prod.splits) blast+

lemma mm_realloc_layout:
  assumes "mm_realloc s bp n = Some (Inr (q, s'))" and "layout s"
  shows "layout s'"
  using mm_realloc_cases [OF assms(1)] assms(2)
  by (auto dest: extend_heap_layout) (metis mm_malloc_layout mm_free_layout layout_memcpy)

lemma bounds_init_lists: "bounds (init_lists s i) = bounds s"
proof (induction s i rule: init_lists.induct)
  case (1 s i)
  then show ?case by (simp add: init_lists.simps [of s i])
qed

lemma mm_init_layout:
  assumes "fresh s0" and "mm_init s0 = Some (r, s)" and "r = 0"
  shows "layout s"
proof -
  let ?n = "word_of_nat (LISTSIZE + 4) * WSIZE :: 64 word"
  obtain p sa where sb: "mem_sbrk s0 ?n = (p, sa)" by (cases "mem_sbrk s0 ?n")
  have ok: "unat (mem_brk s0) + unat ?n \<le> unat (mem_max_addr s0)"
  proof (rule ccontr)
    assume "\<not> ?thesis"
    then have "mem_sbrk s0 ?n = (- 1, s0)" by (simp add: mem_sbrk_def)
    with assms(2,3) show False by (simp add: mm_init_def Let_def)
  qed
  then have sa: "p = mem_brk s0" "sa = s0\<lparr>mem_brk := mem_brk s0 + ?n\<rparr>"
    using sb by (auto simp: mem_sbrk_def)
  have "unat (mem_max_addr s0) < 2 ^ 64"
    using unsigned_less [of "mem_max_addr s0", where ?'a = nat] by simp
  with ok have "unat (mem_brk s0) + unat ?n < 2 ^ 64" by simp
  then have u: "unat (mem_brk s0 + ?n) = unat (mem_brk s0) + unat ?n"
    by (simp add: unat_add_lem [THEN iffD1])
  define s7 where "s7 = (let s1 = sa\<lparr>heap_ptr := p\<rparr>;
                s2 = PUT s1 (heap_ptr s1) 0;
                s3 = PUT s2 (heap_ptr s2 + word_of_nat (LISTSIZE + 1) * WSIZE) (PACK DSIZE 1);
                s4 = PUT s3 (heap_ptr s3 + word_of_nat (LISTSIZE + 2) * WSIZE) (PACK DSIZE 1);
                s5 = PUT s4 (heap_ptr s4 + word_of_nat (LISTSIZE + 3) * WSIZE) (PACK 0 1);
                s6 = init_lists s5 1
            in s6\<lparr>heap_ptr := heap_ptr s6 + word_of_nat (LISTSIZE + 2) * WSIZE\<rparr>)"
  have b6: "bounds (init_lists x 1) = bounds x" for x by (rule bounds_init_lists)
  have l7: "layout s7"
    using assms(1) u b6 [of "PUT (PUT (PUT (PUT (sa\<lparr>heap_ptr := p\<rparr>) p 0)
        (p + word_of_nat (LISTSIZE + 1) * WSIZE) (PACK DSIZE 1))
        (p + word_of_nat (LISTSIZE + 2) * WSIZE) (PACK DSIZE 1))
        (p + word_of_nat (LISTSIZE + 3) * WSIZE) (PACK 0 1)"]
    by (simp add: s7_def Let_def layout_def fresh_def sa bounds_def PUT_def LISTSIZE_def WSIZE_def)
  from assms(2,3) sb have "\<exists>bp. extend_heap s7 INITSIZE = Some (bp, s)"
    by (auto simp: mm_init_def Let_def s7_def split: option.splits if_splits)
  with l7 show ?thesis using extend_heap_layout by blast
qed

lemma reachable_layout: "reachable s \<Longrightarrow> layout s"
proof (induction rule: reachable.induct)
  case (init s0 s)
  then show ?case using mm_init_layout by blast
next
  case (malloc s n p s')
  then show ?case using mm_malloc_layout by blast
next
  case (free s p s')
  then show ?case using bounds_mm_free layout_bounds by blast
next
  case (realloc s p n q s')
  then show ?case using mm_realloc_layout by blast
qed


section \<open>The size check of the heap checker\<close>

text \<open>
  The checker passes only on heaps where the free-block bytes, the allocated-block bytes
  and the fixed overhead add up to the heap size exactly.  The source tests the sum
  with \<open>>\<close> only; the walk over the blocks stops at the first block pointer that is
  not below the last byte of the heap, block sizes and the heap size are multiples of
  the word, and the sum the walk computed is the distance it walked, so a sum below the
  heap size cannot pass either.
\<close>

lemma mm_check_passes_only_on_exact_sum:
  assumes "reachable s" and "mm_check s = Some 1"
  shows "\<exists>count fre_size_explicit count' pld_size fre_size_implicit.
           check_lists s 0 0 0 = Some (Some (count, fre_size_explicit))
           \<and> check_heap_walk s (heap_ptr s) count 0 0 0
               = Some (Some (count', pld_size, fre_size_implicit))
           \<and> fre_size_explicit = fre_size_implicit
           \<and> fre_size_explicit + pld_size + word_of_nat (LISTSIZE + 2) * WSIZE = mem_heapsize s"
proof -
  from assms(2) obtain count fe where
    cl: "check_lists s 0 0 0 = Some (Some (count, fe))"
    by (auto simp: mm_check_def split: if_splits option.splits)
  from assms(2) cl obtain count' pld fi where
    cw: "check_heap_walk s (heap_ptr s) count 0 0 0 = Some (Some (count', pld, fi))"
    by (auto simp: mm_check_def split: if_splits option.splits)
  from assms(2) cl cw have eq: "fe = fi"
    and chk: "\<not> (fe + pld + word_of_nat (LISTSIZE + 2) * WSIZE > mem_heapsize s)"
    by (auto simp: mm_check_def split: if_splits)
  from check_heap_walk_sum [OF cw] obtain bp' where
    b: "\<not> bp' < mem_heap_hi s" "pld + fi = 0 + 0 + (bp' - heap_ptr s)"
       "(bp' - heap_ptr s) AND 7 = 0"
    by blast
  have lay: "layout s" using assms(1) by (rule reachable_layout)
  let ?S = "mem_start_brk s" and ?B = "mem_brk s"
  let ?oh = "word_of_nat (LISTSIZE + 2) * WSIZE :: 64 word"
  have hp: "heap_ptr s = ?S + ?oh" using lay by (simp add: layout_def)
  have oh7: "?oh AND 7 = 0" by (simp add: LISTSIZE_def WSIZE_def)
  have alg: "(c - (S + oh)) + oh = c - S" for c S oh :: "64 word" by simp
  have b2: "pld + fi = bp' - (?S + ?oh)" using b(2) by (simp only: hp) simp
  have b3: "(bp' - (?S + ?oh)) AND 7 = 0" using b(3) by (simp only: hp)
  have "fe + pld + ?oh = (pld + fi) + ?oh" using eq by (simp only: add.commute)
  also have "\<dots> = (bp' - (?S + ?oh)) + ?oh" by (simp only: b2)
  also have "\<dots> = bp' - ?S" by (rule alg)
  finally have tot: "fe + pld + ?oh = bp' - ?S" .
  have "((bp' - (?S + ?oh)) + ?oh) AND 7 = 0" by (rule and7_add [OF b3 oh7])
  then have fal: "(bp' - ?S) AND 7 = 0" by (simp only: alg)
  have "bp' - ?S = ?B - ?S"
  proof (rule walk_end_exact)
    show "unat ?S \<le> unat ?B" using lay by (simp add: layout_def)
    show "(?B - ?S) AND 7 = 0" using lay by (simp add: layout_def)
    show "\<not> bp' < ?B - 1" using b(1) by (simp add: mem_heap_hi_def)
    show "(bp' - ?S) AND 7 = 0" by (rule fal)
    show "\<not> (bp' - ?S > ?B - ?S)" using chk tot by (simp add: mem_heapsize_def)
  qed
  with tot have "fe + pld + ?oh = mem_heapsize s" by (simp add: mem_heapsize_def)
  with cl cw eq show ?thesis by blast
qed

lemma fresh_heap0: "fresh heap0"
  by (simp add: fresh_def heap0_def)

lemma reachable_heap1: "reachable heap1"
  using reachable.init [OF fresh_heap0 run_init] .

lemma reachable_heap5: "reachable heap5"
proof -
  note reachable.malloc [OF reachable_heap1 run_malloc1]
  note reachable.malloc [OF this run_malloc2]
  note reachable.malloc [OF this run_malloc3]
  from reachable.free [OF this run_free2] show ?thesis .
qed

lemma reachable_heap8: "reachable heap8"
  using reachable.realloc [OF reachable_heap5 run_realloc100] .

lemmas check_rules = check_lists.simps check_list_walk.simps check_heap_walk.simps mm_check_def
  mem_heap_hi_def mem_heapsize_def word_sle_eq word_sless_alt

lemma check_heap1: "mm_check heap1 = Some 1"
  by (simp add: heap1_def eval_rules check_rules cong: eval_congs)

text \<open>
  The walk over the blocks advances by the size in the header.  At a block pointer below
  the end of the heap whose header word is 0 it stays where it is: the block counts as
  free, \<open>consec\<close> goes up and down again, and the loop never ends.
\<close>

lemma check_heap_walk_stuck:
  assumes "bp < mem_heap_hi s" and "GET s (HDRP bp) = 0" and "\<not> 2 \<le>s consec + 1"
  shows "check_heap_walk s bp count consec pld_size fre_size_implicit = None"
proof (rule ccontr)
  assume "check_heap_walk s bp count consec pld_size fre_size_implicit \<noteq> None"
  then obtain r where r: "check_heap_walk s bp count consec pld_size fre_size_implicit = Some r"
    by auto
  have "bp < mem_heap_hi s \<longrightarrow> GET s (HDRP bp) = 0 \<longrightarrow> \<not> 2 \<le>s consec + 1 \<longrightarrow> False"
  proof (rule check_heap_walk.raw_induct
      [where P = "\<lambda>s bp count consec pld fre r.
          bp < mem_heap_hi s \<longrightarrow> GET s (HDRP bp) = 0 \<longrightarrow> \<not> 2 \<le>s consec + 1 \<longrightarrow> False", OF _ r])
    fix walk :: "mstate \<Rightarrow> addr \<Rightarrow> 32 word \<Rightarrow> 32 word \<Rightarrow> 64 word \<Rightarrow> 64 word
        \<Rightarrow> (32 word \<times> 64 word \<times> 64 word) option option"
      and s :: mstate and bp :: addr and count consec :: "32 word" and pld fre :: "64 word"
      and r :: "(32 word \<times> 64 word \<times> 64 word) option"
    assume IH: "\<And>s bp count consec pld fre r. walk s bp count consec pld fre = Some r \<Longrightarrow>
        bp < mem_heap_hi s \<longrightarrow> GET s (HDRP bp) = 0 \<longrightarrow> \<not> 2 \<le>s consec + 1 \<longrightarrow> False"
    assume step: "(if bp < mem_heap_hi s then
        (let (count', consec', pld', fre') =
               (if GET_ALLOC s (HDRP bp) = 0
                then (count - 1, consec + 1, pld, fre + GET_SIZE s (HDRP bp))
                else (count, consec, pld + GET_SIZE s (HDRP bp), fre))
         in if 2 \<le>s consec' then Some None
            else walk s (NEXT_BLKP s bp) count' (consec' - 1) pld' fre')
      else Some (Some (count, pld, fre))) = Some r"
    show "bp < mem_heap_hi s \<longrightarrow> GET s (HDRP bp) = 0 \<longrightarrow> \<not> 2 \<le>s consec + 1 \<longrightarrow> False"
    proof (intro impI)
      assume a: "bp < mem_heap_hi s" "GET s (HDRP bp) = 0" "\<not> 2 \<le>s consec + 1"
      have n: "NEXT_BLKP s bp = bp"
        using a(2) by (simp add: NEXT_BLKP_def GET_SIZE_def HDRP_def)
      from step a have "walk s bp (count - 1) consec pld fre = Some r"
        by (simp add: n GET_ALLOC_def GET_SIZE_def)
      from IH [OF this] a show False by simp
    qed
  qed
  with assms show False by simp
qed

lemma check_lists_heap8: "check_lists heap8 0 0 0 = Some (Some (2, 4160))"
  by (simp add: heap8_def eval_rules check_rules cong: eval_congs)

lemma check_heap_walk_heap8: "check_heap_walk heap8 (heap_ptr heap8) 2 0 0 0 = None"
proof -
  have s: "check_heap_walk heap8 8480 1 (- 2) 4192 48 = None"
    by (rule check_heap_walk_stuck)
      (simp_all add: heap8_def macro_defs mem_heap_hi_def word_sle_eq)
  have "check_heap_walk heap8 4240 2 0 0 0 = None"
    apply (subst check_heap_walk.simps)
    apply (simp add: heap8_def macro_defs mem_heap_hi_def word_sle_eq cong: eval_congs)
    apply (subst check_heap_walk.simps)
    apply (simp add: macro_defs mem_heap_hi_def word_sle_eq cong: eval_congs)
    apply (subst check_heap_walk.simps)
    apply (simp add: macro_defs mem_heap_hi_def word_sle_eq cong: eval_congs)
    apply (fold heap8_def)
    apply (rule s)
    done
  then show ?thesis by (simp add: heap8_def)
qed

text \<open>
  C10: the checker is to return failure whenever the free-block bytes, the
  allocated-block bytes and the fixed overhead do not add up to the heap size.  It does
  not on \<open>heap8\<close>, the heap that \<open>mm_init\<close>, three \<open>mm_malloc(16)\<close>, \<open>mm_free\<close>
  of the second block and \<open>mm_realloc(4304, 100)\<close> produce.  The in-place growth of
  \<open>mm_realloc\<close> has extended the heap at its end, although the free block after 4304
  is not the last block, and has given the block at 4304 the size 4176: it now covers
  the allocated block at 4368 and ends at 8480, in the middle of the new free block at
  4400.  The free lists hold 4160 bytes and the prologue and the epilogue are in order,
  so the checker reaches its walk over the blocks; the walk counts 16 + 4176 allocated
  and 48 free bytes (with the overhead of 144 that is 4384, the heap size is 4416), then
  arrives at 8480, reads the header word 0 there and does not advance any more:
  \<open>mm_check\<close> does not return.
\<close>

theorem C10_checker_does_not_return:
  "mm_init heap0 = Some (0, heap1)
   \<and> mm_malloc heap1 16 = Some (4368, heap2) \<and> mm_malloc heap2 16 = Some (4336, heap3)
   \<and> mm_malloc heap3 16 = Some (4304, heap4) \<and> mm_free heap4 4336 = Some heap5
   \<and> mm_realloc heap5 4304 100 = Some (Inr (4304, heap8))
   \<and> GET_SIZE heap8 (HDRP 4304) = 4176 \<and> GET_ALLOC heap8 (HDRP 4368) = 1
   \<and> mem_heapsize heap8 = 4416
   \<and> GET_SIZE heap8 (HDRP (heap_ptr heap8)) = DSIZE \<and> GET_ALLOC heap8 (HDRP (heap_ptr heap8)) = 1
   \<and> GET heap8 (mem_heap_hi heap8 - WSIZE + 1) = 1
   \<and> check_lists heap8 0 0 0 = Some (Some (2, 4160))
   \<and> check_heap_walk heap8 (heap_ptr heap8) 2 0 0 0 = None
   \<and> mm_check heap8 = None"
proof -
  have "mm_check heap8 = None"
    using check_lists_heap8 check_heap_walk_heap8
    by (simp add: mm_check_def heap8_def macro_defs mem_heap_hi_def)
  moreover have "GET_SIZE heap8 (HDRP 4304) = 4176 \<and> GET_ALLOC heap8 (HDRP 4368) = 1
      \<and> mem_heapsize heap8 = 4416
      \<and> GET_SIZE heap8 (HDRP (heap_ptr heap8)) = DSIZE \<and> GET_ALLOC heap8 (HDRP (heap_ptr heap8)) = 1
      \<and> GET heap8 (mem_heap_hi heap8 - WSIZE + 1) = 1"
    by (simp add: heap8_def macro_defs mem_heap_hi_def mem_heapsize_def)
  ultimately show ?thesis
    using run_init run_malloc1 run_malloc2 run_malloc3 run_free2 run_realloc100
      check_lists_heap8 check_heap_walk_heap8 by simp
qed

text \<open>The checker's answer on \<open>heap8\<close>, and what the heap holds against its size.\<close>

theorem C10_witness:
  "mm_check heap8 = None \<and> mem_heapsize heap8 = 4416
   \<and> GET_SIZE heap8 (HDRP 4304) = 4176 \<and> GET_ALLOC heap8 (HDRP 4368) = 1"
  using C10_checker_does_not_return by simp

end
